theory Spec2Isabelle
  imports Complex_Main
begin

section \<open>Data model\<close>

text \<open>
  Modelled from the spec: the enumeration \<open>MessageCode\<close> of
  \<open>fedlab_core.communicator.processor\<close> is imported by \<open>topology.py\<close> but its declaration
  is not part of the sources; the spec names its two values.
\<close>

datatype MessageCode = ParameterUpdate | Exit

text \<open>
  The handler object \<open>self._handler\<close>. The topology reads the attributes \<open>model\<close>,
  \<open>train_flag\<close>, \<open>client_num_in_total\<close> and \<open>client_num_per_round\<close> and writes
  \<open>model_update_time\<close>; whatever else a concrete handler keeps lives in the record extension.
\<close>

record 'm handler =
  model :: 'm
  train_flag :: bool
  model_update_time :: int
  client_num_in_total :: int
  client_num_per_round :: int

text \<open>
  The handler's methods are implemented outside the topology; they are parameters of the model.
  \<open>select_clients\<close> returns the ranks in iteration order together with the handler after the
  call, \<open>on_receive\<close> and \<open>train\<close> return the handler after the call.
\<close>

record ('m, 'p, 'z) handler_methods =
  select_clients :: "('m, 'z) handler_scheme \<Rightarrow> int list \<times> ('m, 'z) handler_scheme"
  on_receive :: "int \<Rightarrow> MessageCode \<Rightarrow> 'p \<Rightarrow> ('m, 'z) handler_scheme \<Rightarrow> ('m, 'z) handler_scheme"
  train :: "('m, 'z) handler_scheme \<Rightarrow> ('m, 'z) handler_scheme"

text \<open>A received package: sender rank, message code, payload.\<close>

type_synonym 'p incoming = "int \<times> MessageCode \<times> 'p"

text \<open>
  The three duties that run concurrently inside a coordinator: \<open>run\<close> itself and the two
  threads it starts. A schedule is the list of the scheduler's picks.
\<close>

datatype duty = Run_main | Run_activate | Run_listen

text \<open>The attributes set by \<open>ServerBasicTop.__init__\<close>.\<close>

record basic_top =
  server_address :: "string \<times> string"
  dist_backend :: string

section \<open>Synchronous coordinator\<close>

text \<open>The object built by \<open>ServerSyncTop.__init__\<close>.\<close>

record ('m, 'z) sync_top = basic_top +
  sync_handler :: "('m, 'z) handler_scheme"
  global_round :: int

definition ServerSyncTop_init ::
  "('m, 'z) handler_scheme \<Rightarrow> string \<times> string \<Rightarrow> string \<Rightarrow> string \<Rightarrow> string \<Rightarrow> ('m, 'z) sync_top" where
  "ServerSyncTop_init server_handler address backend logger_path logger_name =
     \<lparr>server_address = address, dist_backend = backend,
      sync_handler = server_handler, global_round = 1\<rparr>"


text \<open>
  \<open>run\<close> starts two threads per round. A thread is identified by its duty and the round in
  which it was created; the trace records every effect together with the thread that caused it.
\<close>

datatype thread_id = Main_thread | Activate_thread nat | Listen_thread nat

datatype ('m, 'p) sync_event =
    Init_process_group string "string \<times> string" int int
  | Log_round int int
  | Start thread_id
  | Join thread_id
  | Select_clients "int list"
  | Send_model 'm MessageCode int
  | Train
  | Recv_model "'p incoming"
  | On_receive int MessageCode 'p
  | Thread_exit

text \<open>Control points of \<open>run\<close> (with \<open>shutdown_clients\<close>), \<open>activate_clients\<close> and
  \<open>listen_clients\<close>. \<open>SM_shutdown i n\<close> is the loop of \<open>shutdown_clients\<close> at index \<open>i\<close> of
  \<open>range(n)\<close>; \<open>SA_send cs\<close> is the loop of \<open>activate_clients\<close> with \<open>cs\<close> still to visit.\<close>

datatype sync_main_pc =
    SM_init | SM_round nat | SM_start_activate nat | SM_start_listen nat
  | SM_join_activate nat | SM_join_listen nat | SM_shutdown nat nat | SM_done

datatype sync_act_pc = SA_idle | SA_select | SA_send "int list" | SA_done

datatype 'p sync_lis_pc = SL_idle | SL_train | SL_test | SL_recv | SL_on_receive "'p incoming" | SL_done

record ('m, 'z, 'p) sync_state = "('m, 'z) sync_top" +
  sync_inbox :: "'p incoming list"
  sync_trace :: "(thread_id \<times> ('m, 'p) sync_event) list"
  sync_main :: sync_main_pc
  sync_act :: sync_act_pc
  sync_lis :: "'p sync_lis_pc"

definition sync_start :: "('m, 'z) sync_top \<Rightarrow> 'p incoming list \<Rightarrow> ('m, 'z, 'p) sync_state" where
  "sync_start obj inb =
     \<lparr>server_address = server_address obj, dist_backend = dist_backend obj,
      sync_handler = sync_handler obj, global_round = global_round obj,
      sync_inbox = inb, sync_trace = [], sync_main = SM_init, sync_act = SA_idle, sync_lis = SL_idle\<rparr>"

text \<open>The value of the loop variable \<open>round_idx\<close> of \<open>run\<close>.\<close>

fun round_idx :: "sync_main_pc \<Rightarrow> nat" where
  "round_idx (SM_round r) = r"
| "round_idx (SM_start_activate r) = r"
| "round_idx (SM_start_listen r) = r"
| "round_idx (SM_join_activate r) = r"
| "round_idx (SM_join_listen r) = r"
| "round_idx _ = 0"

definition sync_emit ::
  "thread_id \<Rightarrow> ('m, 'p) sync_event \<Rightarrow> ('m, 'z, 'p) sync_state \<Rightarrow> ('m, 'z, 'p) sync_state" where
  "sync_emit t e s = s\<lparr>sync_trace := sync_trace s @ [(t, e)]\<rparr>"

text \<open>
  One step of the main thread: \<open>ServerSyncTop.run\<close> followed by \<open>shutdown_clients\<close>.
  A \<open>join\<close> on a thread that has not finished leaves the state as it is.
\<close>

definition sync_main_step :: "('m, 'z, 'p) sync_state \<Rightarrow> ('m, 'z, 'p) sync_state" where
  "sync_main_step s =
     (case sync_main s of
        SM_init \<Rightarrow>
          sync_emit Main_thread
            (Init_process_group (dist_backend s) (server_address s) 0
               (client_num_in_total (sync_handler s) + 1))
            (s\<lparr>sync_main := SM_round 0\<rparr>)
      | SM_round r \<Rightarrow>
          if int r < global_round s
          then sync_emit Main_thread (Log_round (int r + 1) (global_round s))
                 (s\<lparr>sync_main := SM_start_activate r, sync_act := SA_idle, sync_lis := SL_idle\<rparr>)
          else s\<lparr>sync_main := SM_shutdown 0 (nat (client_num_in_total (sync_handler s)))\<rparr>
      | SM_start_activate r \<Rightarrow>
          sync_emit Main_thread (Start (Activate_thread r))
            (s\<lparr>sync_main := SM_start_listen r, sync_act := SA_select\<rparr>)
      | SM_start_listen r \<Rightarrow>
          sync_emit Main_thread (Start (Listen_thread r))
            (s\<lparr>sync_main := SM_join_activate r, sync_lis := SL_train\<rparr>)
      | SM_join_activate r \<Rightarrow>
          if sync_act s = SA_done
          then sync_emit Main_thread (Join (Activate_thread r)) (s\<lparr>sync_main := SM_join_listen r\<rparr>)
          else s
      | SM_join_listen r \<Rightarrow>
          if sync_lis s = SL_done
          then sync_emit Main_thread (Join (Listen_thread r)) (s\<lparr>sync_main := SM_round (Suc r)\<rparr>)
          else s
      | SM_shutdown i n \<Rightarrow>
          if i < n
          then sync_emit Main_thread (Send_model (model (sync_handler s)) Exit (int i + 1))
                 (s\<lparr>sync_main := SM_shutdown (Suc i) n\<rparr>)
          else s\<lparr>sync_main := SM_done\<rparr>
      | SM_done \<Rightarrow> s)"

text \<open>One step of \<open>ServerSyncTop.activate_clients\<close>.\<close>

definition sync_activate_step ::
  "('m, 'p, 'z) handler_methods \<Rightarrow> ('m, 'z, 'p) sync_state \<Rightarrow> ('m, 'z, 'p) sync_state" where
  "sync_activate_step H s =
     (let me = Activate_thread (round_idx (sync_main s)) in
      case sync_act s of
        SA_idle \<Rightarrow> s
      | SA_select \<Rightarrow>
          (case select_clients H (sync_handler s) of
             (clients_this_round, h') \<Rightarrow>
               sync_emit me (Select_clients clients_this_round)
                 (s\<lparr>sync_handler := h', sync_act := SA_send clients_this_round\<rparr>))
      | SA_send [] \<Rightarrow> sync_emit me Thread_exit (s\<lparr>sync_act := SA_done\<rparr>)
      | SA_send (client_idx # rest) \<Rightarrow>
          sync_emit me (Send_model (model (sync_handler s)) ParameterUpdate client_idx)
            (s\<lparr>sync_act := SA_send rest\<rparr>)
      | SA_done \<Rightarrow> s)"

text \<open>
  One step of \<open>ServerSyncTop.listen_clients\<close>. \<open>recv_model\<close> blocks while no package has
  arrived: with an empty inbox the step leaves the state as it is.
\<close>

definition sync_listen_step ::
  "('m, 'p, 'z) handler_methods \<Rightarrow> ('m, 'z, 'p) sync_state \<Rightarrow> ('m, 'z, 'p) sync_state" where
  "sync_listen_step H s =
     (let me = Listen_thread (round_idx (sync_main s)) in
      case sync_lis s of
        SL_idle \<Rightarrow> s
      | SL_train \<Rightarrow>
          sync_emit me Train (s\<lparr>sync_handler := train H (sync_handler s), sync_lis := SL_test\<rparr>)
      | SL_test \<Rightarrow>
          if train_flag (sync_handler s) then s\<lparr>sync_lis := SL_recv\<rparr>
          else sync_emit me Thread_exit (s\<lparr>sync_lis := SL_done\<rparr>)
      | SL_recv \<Rightarrow>
          (case sync_inbox s of
             [] \<Rightarrow> s
           | pkg # rest \<Rightarrow>
               sync_emit me (Recv_model pkg) (s\<lparr>sync_inbox := rest, sync_lis := SL_on_receive pkg\<rparr>))
      | SL_on_receive pkg \<Rightarrow>
          (case pkg of
             (sender, message_code, s_parameters) \<Rightarrow>
               sync_emit me (On_receive sender message_code s_parameters)
                 (s\<lparr>sync_handler := on_receive H sender message_code s_parameters (sync_handler s),
                    sync_lis := SL_test\<rparr>))
      | SL_done \<Rightarrow> s)"

text \<open>The scheduler picks the duty that moves next; a schedule is the list of its picks.\<close>

fun sync_step ::
  "('m, 'p, 'z) handler_methods \<Rightarrow> duty \<Rightarrow> ('m, 'z, 'p) sync_state \<Rightarrow> ('m, 'z, 'p) sync_state" where
  "sync_step H Run_main s = sync_main_step s"
| "sync_step H Run_activate s = sync_activate_step H s"
| "sync_step H Run_listen s = sync_listen_step H s"

fun sync_exec ::
  "('m, 'p, 'z) handler_methods \<Rightarrow> duty list \<Rightarrow> ('m, 'z, 'p) sync_state \<Rightarrow> ('m, 'z, 'p) sync_state" where
  "sync_exec H [] s = s"
| "sync_exec H (d # ds) s = sync_exec H ds (sync_step H d s)"


section \<open>Asynchronous coordinator\<close>

text \<open>
  Modelled from the spec: the class \<open>Package\<close> of \<open>fedlab_core.communicator.processor\<close> is not
  part of the sources. The spec describes it as a message code with zero or more tensors
  appended in call order, a tensor being a flattened numeric buffer.
\<close>

type_synonym tensor = "real list"

record package =
  message_code :: MessageCode
  content :: "tensor list"

definition Package :: "MessageCode \<Rightarrow> tensor list \<Rightarrow> package" where
  "Package code tensors = \<lparr>message_code = code, content = tensors\<rparr>"

definition append_tensor_list :: "tensor list \<Rightarrow> package \<Rightarrow> package" where
  "append_tensor_list tensors pack = pack\<lparr>content := content pack @ tensors\<rparr>"

text \<open>The object built by \<open>ServerAsyncTop.__init__\<close>.\<close>

record ('m, 'z) async_top = basic_top +
  async_handler :: "('m, 'z) handler_scheme"
  global_activate_epoch :: int
  has_new_update :: bool
  total_update_time :: int

definition ServerAsyncTop_init ::
  "('m, 'z) handler_scheme \<Rightarrow> string \<times> string \<Rightarrow> string \<Rightarrow> string \<Rightarrow> string \<Rightarrow> ('m, 'z) async_top" where
  "ServerAsyncTop_init server_handler address backend logger_path logger_name =
     (let epochs = 3 in
      \<lparr>server_address = address, dist_backend = backend,
       async_handler = server_handler, global_activate_epoch = epochs,
       has_new_update = False,
       total_update_time = epochs * client_num_per_round server_handler\<rparr>)"

text \<open>
  The effects of the asynchronous coordinator. \<open>Clear_flag e\<close> is the assignment
  \<open>has_new_update = False\<close> of epoch \<open>e\<close>; \<open>Recv_package i\<close>, \<open>Stamp i\<close>, \<open>Forward i\<close> and
  \<open>Set_flag i\<close> are the four statements of iteration \<open>i\<close> of \<open>listen_clients\<close>.
\<close>

datatype 'p async_event =
    Init_group string "string \<times> string" int int
  | Start_duty duty
  | Join_duty duty
  | Log_epoch int int
  | Log_clients "int list"
  | Send_package package int
  | Clear_flag nat
  | Recv_package nat "'p incoming"
  | Stamp nat
  | Forward nat int MessageCode 'p
  | Set_flag nat
  | Log_total int
  | Duty_exit

datatype async_main_pc =
    AM_init | AM_start_activate | AM_start_listen | AM_join_listen
  | AM_shutdown_log | AM_shutdown nat nat | AM_done

datatype async_act_pc = AA_idle | AA_epoch nat | AA_send nat "int list" | AA_wait nat | AA_done

datatype 'p async_lis_pc =
    AL_idle | AL_recv nat | AL_stamp nat "'p incoming" | AL_on_receive nat "'p incoming"
  | AL_set nat | AL_done

record ('m, 'z, 'p) async_state = "('m, 'z) async_top" +
  async_inbox :: "'p incoming list"
  async_trace :: "(duty \<times> 'p async_event) list"
  async_main :: async_main_pc
  async_act :: async_act_pc
  async_lis :: "'p async_lis_pc"

definition async_start :: "('m, 'z) async_top \<Rightarrow> 'p incoming list \<Rightarrow> ('m, 'z, 'p) async_state" where
  "async_start obj inb =
     \<lparr>server_address = server_address obj, dist_backend = dist_backend obj,
      async_handler = async_handler obj, global_activate_epoch = global_activate_epoch obj,
      has_new_update = has_new_update obj, total_update_time = total_update_time obj,
      async_inbox = inb, async_trace = [], async_main = AM_init, async_act = AA_idle,
      async_lis = AL_idle\<rparr>"

definition async_emit ::
  "duty \<Rightarrow> 'p async_event \<Rightarrow> ('m, 'z, 'p) async_state \<Rightarrow> ('m, 'z, 'p) async_state" where
  "async_emit d e s = s\<lparr>async_trace := async_trace s @ [(d, e)]\<rparr>"

text \<open>
  One step of the main thread: \<open>ServerAsyncTop.run\<close> followed by \<open>shutdown_clients\<close>.
  \<open>serialize_model\<close> stands for \<open>SerializationTool.serialize_model\<close>.
\<close>

definition async_main_step ::
  "('m \<Rightarrow> tensor) \<Rightarrow> ('m, 'z, 'p) async_state \<Rightarrow> ('m, 'z, 'p) async_state" where
  "async_main_step serialize_model s =
     (case async_main s of
        AM_init \<Rightarrow>
          async_emit Run_main
            (Init_group (dist_backend s) (server_address s) 0
               (client_num_in_total (async_handler s) + 1))
            (s\<lparr>async_main := AM_start_activate\<rparr>)
      | AM_start_activate \<Rightarrow>
          async_emit Run_main (Start_duty Run_activate)
            (s\<lparr>async_main := AM_start_listen, async_act := AA_epoch 0\<rparr>)
      | AM_start_listen \<Rightarrow>
          async_emit Run_main (Start_duty Run_listen)
            (s\<lparr>async_main := AM_join_listen, async_lis := AL_recv 0\<rparr>)
      | AM_join_listen \<Rightarrow>
          if async_lis s = AL_done
          then async_emit Run_main (Join_duty Run_listen) (s\<lparr>async_main := AM_shutdown_log\<rparr>)
          else s
      | AM_shutdown_log \<Rightarrow>
          async_emit Run_main (Log_total (total_update_time s))
            (s\<lparr>async_main := AM_shutdown 0 (nat (client_num_in_total (async_handler s)))\<rparr>)
      | AM_shutdown i n \<Rightarrow>
          if i < n
          then async_emit Run_main
                 (Send_package (Package Exit [serialize_model (model (async_handler s))]) (int i + 1))
                 (s\<lparr>async_main := AM_shutdown (Suc i) n\<rparr>)
          else s\<lparr>async_main := AM_done\<rparr>
      | AM_done \<Rightarrow> s)"

text \<open>
  One step of \<open>ServerAsyncTop.activate_clients\<close>. The tensor \<open>current_model_epoch_torch\<close>
  holds the epoch index; one pass through \<open>while not self.has_new_update: pass\<close> with the flag
  still clear leaves the state as it is.
\<close>

definition async_activate_step ::
  "('m, 'p, 'z) handler_methods \<Rightarrow> ('m \<Rightarrow> tensor) \<Rightarrow> ('m, 'z, 'p) async_state \<Rightarrow> ('m, 'z, 'p) async_state" where
  "async_activate_step H serialize_model s =
     (case async_act s of
        AA_idle \<Rightarrow> s
      | AA_epoch e \<Rightarrow>
          if int e < global_activate_epoch s
          then (case select_clients H (async_handler s) of
                  (clients_this_epoch, h') \<Rightarrow>
                    async_emit Run_activate (Log_clients clients_this_epoch)
                      (async_emit Run_activate (Log_epoch (int e + 1) (global_activate_epoch s))
                         (s\<lparr>async_handler := h', async_act := AA_send e clients_this_epoch\<rparr>)))
          else async_emit Run_activate Duty_exit (s\<lparr>async_act := AA_done\<rparr>)
      | AA_send e [] \<Rightarrow>
          async_emit Run_activate (Clear_flag e) (s\<lparr>has_new_update := False, async_act := AA_wait e\<rparr>)
      | AA_send e (client_idx # rest) \<Rightarrow>
          (let pack = Package ParameterUpdate [];
               model_params = serialize_model (model (async_handler s));
               pack = append_tensor_list [model_params, [real e]] pack
           in async_emit Run_activate (Send_package pack client_idx) (s\<lparr>async_act := AA_send e rest\<rparr>))
      | AA_wait e \<Rightarrow> if has_new_update s then s\<lparr>async_act := AA_epoch (Suc e)\<rparr> else s
      | AA_done \<Rightarrow> s)"

text \<open>
  One step of \<open>ServerAsyncTop.listen_clients\<close>. \<open>recv_package\<close> blocks while no package has
  arrived: with an empty inbox the step leaves the state as it is.
\<close>

definition async_listen_step ::
  "('m, 'p, 'z) handler_methods \<Rightarrow> ('m, 'z, 'p) async_state \<Rightarrow> ('m, 'z, 'p) async_state" where
  "async_listen_step H s =
     (case async_lis s of
        AL_idle \<Rightarrow> s
      | AL_recv i \<Rightarrow>
          if int i < total_update_time s
          then (case async_inbox s of
                  [] \<Rightarrow> s
                | pkg # rest \<Rightarrow>
                    async_emit Run_listen (Recv_package i pkg)
                      (s\<lparr>async_inbox := rest, async_lis := AL_stamp i pkg\<rparr>))
          else async_emit Run_listen Duty_exit (s\<lparr>async_lis := AL_done\<rparr>)
      | AL_stamp i pkg \<Rightarrow>
          async_emit Run_listen (Stamp i)
            (s\<lparr>async_handler := (async_handler s)\<lparr>model_update_time := int i\<rparr>,
               async_lis := AL_on_receive i pkg\<rparr>)
      | AL_on_receive i pkg \<Rightarrow>
          (case pkg of
             (sender, code, payload) \<Rightarrow>
               async_emit Run_listen (Forward i sender code payload)
                 (s\<lparr>async_handler := on_receive H sender code payload (async_handler s),
                    async_lis := AL_set i\<rparr>))
      | AL_set i \<Rightarrow>
          async_emit Run_listen (Set_flag i) (s\<lparr>has_new_update := True, async_lis := AL_recv (Suc i)\<rparr>)
      | AL_done \<Rightarrow> s)"

fun async_step ::
  "('m, 'p, 'z) handler_methods \<Rightarrow> ('m \<Rightarrow> tensor) \<Rightarrow> duty \<Rightarrow> ('m, 'z, 'p) async_state \<Rightarrow> ('m, 'z, 'p) async_state" where
  "async_step H ser Run_main s = async_main_step ser s"
| "async_step H ser Run_activate s = async_activate_step H ser s"
| "async_step H ser Run_listen s = async_listen_step H s"

fun async_exec ::
  "('m, 'p, 'z) handler_methods \<Rightarrow> ('m \<Rightarrow> tensor) \<Rightarrow> duty list \<Rightarrow> ('m, 'z, 'p) async_state \<Rightarrow> ('m, 'z, 'p) async_state" where
  "async_exec H ser [] s = s"
| "async_exec H ser (d # ds) s = async_exec H ser ds (async_step H ser d s)"

section \<open>Vocabulary of the properties\<close>

text \<open>The effects of one thread, in the order in which they happened.\<close>

definition sync_events_of ::
  "thread_id \<Rightarrow> (thread_id \<times> ('m, 'p) sync_event) list \<Rightarrow> ('m, 'p) sync_event list" where
  "sync_events_of t tr = map snd (filter (\<lambda>x. fst x = t) tr)"

text \<open>What the main thread does in round \<open>r\<close> of \<open>range(global_round)\<close>.\<close>

definition round_events :: "int \<Rightarrow> nat \<Rightarrow> ('m, 'p) sync_event list" where
  "round_events R r =
     [Log_round (int r + 1) R, Start (Activate_thread r), Start (Listen_thread r),
      Join (Activate_thread r), Join (Listen_thread r)]"

text \<open>What the main thread has done once the first \<open>r\<close> rounds are complete.\<close>

definition rounds_done :: "('m, 'z, 'p) sync_state \<Rightarrow> nat \<Rightarrow> ('m, 'p) sync_event list" where
  "rounds_done s0 r =
     Init_process_group (dist_backend s0) (server_address s0) 0
       (client_num_in_total (sync_handler s0) + 1)
     # concat (map (round_events (global_round s0)) [0..<r])"

text \<open>One \<open>Exit\<close> package carrying \<open>m\<close> to each of the ranks \<open>1..n\<close>, in this order.\<close>

definition exit_sends :: "'m \<Rightarrow> nat \<Rightarrow> ('m, 'p) sync_event list" where
  "exit_sends m n = map (\<lambda>i. Send_model m Exit (int i + 1)) [0..<n]"

text \<open>Neither thread of the current round is running.\<close>

definition sync_quiet :: "('m, 'z, 'p) sync_state \<Rightarrow> bool" where
  "sync_quiet s \<longleftrightarrow>
     (sync_act s = SA_idle \<or> sync_act s = SA_done) \<and> (sync_lis s = SL_idle \<or> sync_lis s = SL_done)"

text \<open>The invariant that ties the control point of \<open>run\<close> to what the main thread has done.\<close>

definition sync_main_inv :: "('m, 'z, 'p) sync_state \<Rightarrow> ('m, 'z, 'p) sync_state \<Rightarrow> bool" where
  "sync_main_inv s0 s \<longleftrightarrow>
     global_round s = global_round s0 \<and> dist_backend s = dist_backend s0 \<and>
     server_address s = server_address s0 \<and>
     (let R = global_round s0; me = sync_events_of Main_thread (sync_trace s) in
      case sync_main s of
        SM_init \<Rightarrow>
          me = [] \<and> sync_handler s = sync_handler s0 \<and> sync_act s = SA_idle \<and> sync_lis s = SL_idle
      | SM_round r \<Rightarrow> me = rounds_done s0 r \<and> (r = 0 \<or> int r \<le> R) \<and> sync_quiet s
      | SM_start_activate r \<Rightarrow>
          me = rounds_done s0 r @ take 1 (round_events R r) \<and> int r < R \<and>
          sync_act s = SA_idle \<and> sync_lis s = SL_idle
      | SM_start_listen r \<Rightarrow>
          me = rounds_done s0 r @ take 2 (round_events R r) \<and> int r < R \<and> sync_lis s = SL_idle
      | SM_join_activate r \<Rightarrow> me = rounds_done s0 r @ take 3 (round_events R r) \<and> int r < R
      | SM_join_listen r \<Rightarrow>
          me = rounds_done s0 r @ take 4 (round_events R r) \<and> int r < R \<and> sync_act s = SA_done
      | SM_shutdown i n \<Rightarrow>
          me = rounds_done s0 (nat R) @ exit_sends (model (sync_handler s)) i \<and> i \<le> n \<and>
          n = nat (client_num_in_total (sync_handler s)) \<and> sync_quiet s
      | SM_done \<Rightarrow>
          me = rounds_done s0 (nat R) @
               exit_sends (model (sync_handler s)) (nat (client_num_in_total (sync_handler s))) \<and>
          sync_quiet s)"

text \<open>Threads other than the main thread send nothing but \<open>ParameterUpdate\<close> packages.\<close>

definition sync_thread_sends :: "('m, 'z, 'p) sync_state \<Rightarrow> bool" where
  "sync_thread_sends s \<longleftrightarrow>
     (\<forall>t m c d. (t, Send_model m c d) \<in> set (sync_trace s) \<longrightarrow> t \<noteq> Main_thread \<longrightarrow> c = ParameterUpdate)"

subsection \<open>A concrete handler and run\<close>

text \<open>
  A small handler for concrete runs: the model is the list of the payloads received so far,
  \<open>select_clients\<close> picks the next two ranks, \<open>train\<close> sets \<open>train_flag\<close> and \<open>on_receive\<close>
  clears it on every second update.
\<close>

definition demo_handler :: "int list handler" where
  "demo_handler = \<lparr>model = [], train_flag = False, model_update_time = 0,
                    client_num_in_total = 6, client_num_per_round = 2\<rparr>"

definition demo_methods :: "(int list, int, unit) handler_methods" where
  "demo_methods =
     \<lparr>select_clients = (\<lambda>h. (let k = 2 * int (length (model h)) in [k + 1, k + 2], h)),
      on_receive = (\<lambda>sender code payload h.
         h\<lparr>model := model h @ [payload], train_flag := even (length (model h))\<rparr>),
      train = (\<lambda>h. h\<lparr>train_flag := True\<rparr>)\<rparr>"

definition demo_address :: "string \<times> string" where
  "demo_address = (''127.0.0.1'', ''3002'')"

definition demo_sync_top :: "(int list, unit) sync_top" where
  "demo_sync_top = ServerSyncTop_init demo_handler demo_address ''gloo'' ''server_top.txt'' ''ServerTop''"

definition demo_inbox :: "int incoming list" where
  "demo_inbox =
     [(1, ParameterUpdate, 10), (2, ParameterUpdate, 20), (3, ParameterUpdate, 30),
      (4, ParameterUpdate, 40), (5, ParameterUpdate, 50), (6, ParameterUpdate, 60)]"

text \<open>A complete run of one round: the main thread starts both duties, the activation duty
  runs, the listening duty runs, the main thread joins both and shuts the workers down.\<close>

definition demo_sync_schedule :: "duty list" where
  "demo_sync_schedule =
     [Run_main, Run_main, Run_main, Run_main,
      Run_activate, Run_activate, Run_activate, Run_activate,
      Run_listen, Run_listen, Run_listen, Run_listen, Run_listen, Run_listen, Run_listen, Run_listen,
      Run_main, Run_main, Run_main, Run_main, Run_main, Run_main, Run_main, Run_main, Run_main,
      Run_main]"

definition demo_sync_final :: "(int list, unit, int) sync_state" where
  "demo_sync_final = sync_exec demo_methods demo_sync_schedule (sync_start demo_sync_top demo_inbox)"

subsection \<open>Rounds in the trace\<close>

text \<open>Thread \<open>t\<close> is the main thread or was created in a round before \<open>k\<close>.\<close>

fun before_round :: "nat \<Rightarrow> thread_id \<Rightarrow> bool" where
  "before_round k Main_thread = True"
| "before_round k (Activate_thread r) = (r < k)"
| "before_round k (Listen_thread r) = (r < k)"

text \<open>Round \<open>r\<close> is closed in a trace: both of its threads have run to their end and the main
  thread has joined both.\<close>

definition round_closed :: "nat \<Rightarrow> (thread_id \<times> ('m, 'p) sync_event) list \<Rightarrow> bool" where
  "round_closed r tr \<longleftrightarrow>
     (Activate_thread r, Thread_exit) \<in> set tr \<and> (Listen_thread r, Thread_exit) \<in> set tr \<and>
     (Main_thread, Join (Activate_thread r)) \<in> set tr \<and>
     (Main_thread, Join (Listen_thread r)) \<in> set tr"

text \<open>Whatever a thread of round \<open>r + 1\<close> does happens after round \<open>r\<close> is closed, and no
  thread of round \<open>r\<close> does anything afterwards.\<close>

definition rounds_separated :: "(thread_id \<times> ('m, 'p) sync_event) list \<Rightarrow> bool" where
  "rounds_separated tr \<longleftrightarrow>
     (\<forall>xs t e ys r. tr = xs @ (t, e) # ys \<longrightarrow>
        (t = Activate_thread (Suc r) \<or> t = Listen_thread (Suc r)) \<longrightarrow>
        round_closed r xs \<and>
        (\<forall>e'. (Activate_thread r, e') \<notin> set ys \<and> (Listen_thread r, e') \<notin> set ys))"

definition sync_order_inv :: "('m, 'z, 'p) sync_state \<Rightarrow> bool" where
  "sync_order_inv s \<longleftrightarrow>
     rounds_separated (sync_trace s) \<and>
     (let tr = sync_trace s;
          seen = (\<lambda>k. \<forall>t e. (t, e) \<in> set tr \<longrightarrow> before_round k t);
          closed = (\<lambda>k. \<forall>j<k. round_closed j tr);
          act_exit = (\<lambda>r. sync_act s = SA_done \<longrightarrow> (Activate_thread r, Thread_exit) \<in> set tr);
          lis_exit = (\<lambda>r. sync_lis s = SL_done \<longrightarrow> (Listen_thread r, Thread_exit) \<in> set tr)
      in case sync_main s of
        SM_init \<Rightarrow> seen 0 \<and> sync_act s = SA_idle \<and> sync_lis s = SL_idle
      | SM_round r \<Rightarrow> seen r \<and> closed r \<and> sync_quiet s
      | SM_start_activate r \<Rightarrow> seen r \<and> closed r \<and> sync_act s = SA_idle \<and> sync_lis s = SL_idle
      | SM_start_listen r \<Rightarrow> seen (Suc r) \<and> closed r \<and> sync_lis s = SL_idle \<and> act_exit r
      | SM_join_activate r \<Rightarrow> seen (Suc r) \<and> closed r \<and> act_exit r \<and> lis_exit r
      | SM_join_listen r \<Rightarrow>
          seen (Suc r) \<and> closed r \<and> act_exit r \<and> lis_exit r \<and> sync_act s = SA_done \<and>
          (Main_thread, Join (Activate_thread r)) \<in> set tr
      | SM_shutdown i n \<Rightarrow> sync_quiet s
      | SM_done \<Rightarrow> sync_quiet s)"

text \<open>A run of two rounds of the concrete handler.\<close>

definition demo_two_rounds_schedule :: "duty list" where
  "demo_two_rounds_schedule =
     [Run_main, Run_main, Run_main, Run_main,
      Run_activate, Run_activate, Run_activate, Run_activate,
      Run_listen, Run_listen, Run_listen, Run_listen, Run_listen, Run_listen, Run_listen, Run_listen,
      Run_main, Run_main, Run_main, Run_main, Run_main,
      Run_activate, Run_activate, Run_activate, Run_activate,
      Run_listen, Run_listen, Run_listen, Run_listen, Run_listen, Run_listen, Run_listen, Run_listen,
      Run_main, Run_main, Run_main, Run_main, Run_main, Run_main, Run_main, Run_main, Run_main,
      Run_main]"

definition demo_two_rounds_final :: "(int list, unit, int) sync_state" where
  "demo_two_rounds_final =
     sync_exec demo_methods demo_two_rounds_schedule
       (sync_start (demo_sync_top\<lparr>global_round := 2\<rparr>) demo_inbox)"

text \<open>The trace of that run, before and after the first effect of the second round's
  activation duty.\<close>

definition demo_first_round :: "(thread_id \<times> (int list, int) sync_event) list" where
  "demo_first_round =
     [(Main_thread, Init_process_group ''gloo'' demo_address 0 7),
      (Main_thread, Log_round 1 2),
      (Main_thread, Start (Activate_thread 0)),
      (Main_thread, Start (Listen_thread 0)),
      (Activate_thread 0, Select_clients [1, 2]),
      (Activate_thread 0, Send_model [] ParameterUpdate 1),
      (Activate_thread 0, Send_model [] ParameterUpdate 2),
      (Activate_thread 0, Thread_exit),
      (Listen_thread 0, Train),
      (Listen_thread 0, Recv_model (1, ParameterUpdate, 10)),
      (Listen_thread 0, On_receive 1 ParameterUpdate 10),
      (Listen_thread 0, Recv_model (2, ParameterUpdate, 20)),
      (Listen_thread 0, On_receive 2 ParameterUpdate 20),
      (Listen_thread 0, Thread_exit),
      (Main_thread, Join (Activate_thread 0)),
      (Main_thread, Join (Listen_thread 0)),
      (Main_thread, Log_round 2 2),
      (Main_thread, Start (Activate_thread (Suc 0))),
      (Main_thread, Start (Listen_thread (Suc 0)))]"

definition demo_second_round :: "(thread_id \<times> (int list, int) sync_event) list" where
  "demo_second_round =
     [(Activate_thread (Suc 0), Send_model [10, 20] ParameterUpdate 5),
      (Activate_thread (Suc 0), Send_model [10, 20] ParameterUpdate 6),
      (Activate_thread (Suc 0), Thread_exit),
      (Listen_thread (Suc 0), Train),
      (Listen_thread (Suc 0), Recv_model (3, ParameterUpdate, 30)),
      (Listen_thread (Suc 0), On_receive 3 ParameterUpdate 30),
      (Listen_thread (Suc 0), Recv_model (4, ParameterUpdate, 40)),
      (Listen_thread (Suc 0), On_receive 4 ParameterUpdate 40),
      (Listen_thread (Suc 0), Thread_exit),
      (Main_thread, Join (Activate_thread (Suc 0))),
      (Main_thread, Join (Listen_thread (Suc 0))),
      (Main_thread, Send_model [10, 20, 30, 40] Exit 1),
      (Main_thread, Send_model [10, 20, 30, 40] Exit 2),
      (Main_thread, Send_model [10, 20, 30, 40] Exit 3),
      (Main_thread, Send_model [10, 20, 30, 40] Exit 4),
      (Main_thread, Send_model [10, 20, 30, 40] Exit 5),
      (Main_thread, Send_model [10, 20, 30, 40] Exit 6)]"

subsection \<open>The listening duty of the asynchronous coordinator\<close>

definition async_events_of :: "duty \<Rightarrow> (duty \<times> 'p async_event) list \<Rightarrow> 'p async_event list" where
  "async_events_of d tr = map snd (filter (\<lambda>x. fst x = d) tr)"

text \<open>The four effects of iteration \<open>i\<close> of \<open>listen_clients\<close> on the package \<open>pkg\<close>, in the
  order of the source.\<close>

definition lis_iteration :: "nat \<Rightarrow> 'p incoming \<Rightarrow> 'p async_event list" where
  "lis_iteration i pkg =
     [Recv_package i pkg, Stamp i, Forward i (fst pkg) (fst (snd pkg)) (snd (snd pkg)), Set_flag i]"

text \<open>The first \<open>n\<close> complete iterations on the packages of \<open>inb\<close>.\<close>

definition lis_iterations :: "'p incoming list \<Rightarrow> nat \<Rightarrow> 'p async_event list" where
  "lis_iterations inb n = concat (map (\<lambda>i. lis_iteration i (inb ! i)) [0..<n])"

text \<open>What the listening duty has done when it stands at a control point, given the packages
  \<open>inb\<close> that arrive and the bound \<open>T\<close> of its loop.\<close>

fun listen_log :: "'p incoming list \<Rightarrow> int \<Rightarrow> 'p async_lis_pc \<Rightarrow> 'p async_event list" where
  "listen_log inb T AL_idle = []"
| "listen_log inb T (AL_recv i) = lis_iterations inb i"
| "listen_log inb T (AL_stamp i pkg) = lis_iterations inb i @ take 1 (lis_iteration i pkg)"
| "listen_log inb T (AL_on_receive i pkg) = lis_iterations inb i @ take 2 (lis_iteration i pkg)"
| "listen_log inb T (AL_set i) = lis_iterations inb i @ take 3 (lis_iteration i (inb ! i))"
| "listen_log inb T AL_done = lis_iterations inb (nat T) @ [Duty_exit]"

fun is_recv :: "'p async_event \<Rightarrow> bool" where
  "is_recv (Recv_package i pkg) = True"
| "is_recv _ = False"

text \<open>What is left of the arriving packages \<open>inb\<close> when the listening duty stands at a
  control point.\<close>

fun lis_inbox :: "'p incoming list \<Rightarrow> int \<Rightarrow> 'p async_lis_pc \<Rightarrow> 'p incoming list \<Rightarrow> bool" where
  "lis_inbox inb T AL_idle box \<longleftrightarrow> box = inb"
| "lis_inbox inb T (AL_recv i) box \<longleftrightarrow> box = drop i inb \<and> i \<le> length inb \<and> (i = 0 \<or> int i \<le> T)"
| "lis_inbox inb T (AL_stamp i pkg) box \<longleftrightarrow>
     box = drop (Suc i) inb \<and> i < length inb \<and> pkg = inb ! i \<and> int i < T"
| "lis_inbox inb T (AL_on_receive i pkg) box \<longleftrightarrow>
     box = drop (Suc i) inb \<and> i < length inb \<and> pkg = inb ! i \<and> int i < T"
| "lis_inbox inb T (AL_set i) box \<longleftrightarrow> box = drop (Suc i) inb \<and> i < length inb \<and> int i < T"
| "lis_inbox inb T AL_done box \<longleftrightarrow> box = drop (nat T) inb \<and> nat T \<le> length inb"

definition async_lis_inv :: "('m, 'z, 'p) async_state \<Rightarrow> ('m, 'z, 'p) async_state \<Rightarrow> bool" where
  "async_lis_inv s0 s \<longleftrightarrow>
     total_update_time s = total_update_time s0 \<and>
     async_events_of Run_listen (async_trace s) =
       listen_log (async_inbox s0) (total_update_time s0) (async_lis s) \<and>
     lis_inbox (async_inbox s0) (total_update_time s0) (async_lis s) (async_inbox s) \<and>
     (async_main s = AM_init \<or> async_main s = AM_start_activate \<or> async_main s = AM_start_listen
        \<longrightarrow> async_lis s = AL_idle)"

text \<open>The number of steps the listening duty still takes until it has left its loop of
  \<open>n\<close> iterations.\<close>

fun lis_rank :: "nat \<Rightarrow> 'p async_lis_pc \<Rightarrow> nat" where
  "lis_rank n AL_idle = 4 * n + 1"
| "lis_rank n (AL_recv i) = 4 * (n - i) + 1"
| "lis_rank n (AL_stamp i pkg) = 4 * (n - i)"
| "lis_rank n (AL_on_receive i pkg) = 4 * (n - i) - 1"
| "lis_rank n (AL_set i) = 4 * (n - i) - 2"
| "lis_rank n AL_done = 0"

text \<open>The asynchronous coordinator of the concrete handler; the model is serialized
  element by element.\<close>

definition demo_async_top :: "(int list, unit) async_top" where
  "demo_async_top =
     ServerAsyncTop_init demo_handler demo_address ''gloo'' ''server_top.txt'' ''ServerTop''"

definition demo_serialize :: "int list \<Rightarrow> tensor" where
  "demo_serialize m = map real_of_int m"

definition demo_async_started :: "(int list, unit, int) async_state" where
  "demo_async_started =
     async_exec demo_methods demo_serialize [Run_main, Run_main, Run_main]
       (async_start demo_async_top demo_inbox)"

text \<open>Twenty-five steps of the listening duty: six iterations and the exit from the loop.\<close>

definition demo_listen_schedule :: "duty list" where
  "demo_listen_schedule =
     [Run_listen, Run_listen, Run_listen, Run_listen, Run_listen,
      Run_listen, Run_listen, Run_listen, Run_listen, Run_listen,
      Run_listen, Run_listen, Run_listen, Run_listen, Run_listen,
      Run_listen, Run_listen, Run_listen, Run_listen, Run_listen,
      Run_listen, Run_listen, Run_listen, Run_listen, Run_listen]"

definition demo_async_listened :: "(int list, unit, int) async_state" where
  "demo_async_listened =
     async_exec demo_methods demo_serialize (Run_main # Run_main # Run_main # demo_listen_schedule)
       (async_start demo_async_top demo_inbox)"

subsection \<open>The main thread of the asynchronous coordinator\<close>










subsection \<open>The gate between epochs of the asynchronous activation duty\<close>















section \<open>Properties of the constructors\<close>

text \<open>
  C9: the round and epoch counts are constants assigned by the constructors and no
  constructor argument changes them: \<open>ServerSyncTop\<close> has \<open>global_round = 1\<close> and
  \<open>ServerAsyncTop\<close> has \<open>global_activate_epoch = 3\<close>, for every handler, address and backend.
\<close>

theorem constructor_counts_fixed:
  "global_round (ServerSyncTop_init server_handler address backend logger_path logger_name) = 1 \<and>
   global_activate_epoch
     (ServerAsyncTop_init server_handler' address' backend' logger_path' logger_name') = 3"
  by (simp add: ServerSyncTop_init_def ServerAsyncTop_init_def)

section \<open>The synchronous main thread\<close>

lemma sync_events_of_snoc [simp]:
  "sync_events_of t (tr @ [(t', e)]) = sync_events_of t tr @ (if t' = t then [e] else [])"
  by (simp add: sync_events_of_def)

lemma sync_events_of_Nil [simp]: "sync_events_of t [] = []"
  by (simp add: sync_events_of_def)

lemma in_sync_events_of: "e \<in> set (sync_events_of t tr) \<longleftrightarrow> (t, e) \<in> set tr"
  by (force simp: sync_events_of_def)

lemma rounds_done_0:
  "rounds_done s0 0 =
     [Init_process_group (dist_backend s0) (server_address s0) 0
        (client_num_in_total (sync_handler s0) + 1)]"
  by (simp add: rounds_done_def)

lemma rounds_done_Suc: "rounds_done s0 (Suc r) = rounds_done s0 r @ round_events (global_round s0) r"
  by (simp add: rounds_done_def)

lemma exit_sends_0: "exit_sends m 0 = []"
  by (simp add: exit_sends_def)

lemma exit_sends_Suc: "exit_sends m (Suc i) = exit_sends m i @ [Send_model m Exit (int i + 1)]"
  by (simp add: exit_sends_def)

lemma range_exhausted: "int r = R \<Longrightarrow> nat R = r"
  by auto

lemma sync_main_inv_main: "sync_main_inv s0 s \<Longrightarrow> sync_main_inv s0 (sync_main_step s)"
  unfolding sync_main_inv_def sync_main_step_def sync_emit_def sync_quiet_def Let_def
  by (cases "sync_main s")
     (auto simp: rounds_done_Suc rounds_done_0 exit_sends_0 exit_sends_Suc round_events_def
           dest!: range_exhausted)

lemma sync_main_inv_activate: "sync_main_inv s0 s \<Longrightarrow> sync_main_inv s0 (sync_activate_step H s)"
  unfolding sync_main_inv_def sync_activate_step_def sync_emit_def sync_quiet_def Let_def
  by (cases "sync_main s") (auto split: sync_act_pc.splits list.splits prod.splits)

lemma sync_main_inv_listen: "sync_main_inv s0 s \<Longrightarrow> sync_main_inv s0 (sync_listen_step H s)"
  unfolding sync_main_inv_def sync_listen_step_def sync_emit_def sync_quiet_def Let_def
  by (cases "sync_main s") (auto split: sync_lis_pc.splits list.splits prod.splits)

lemma sync_main_inv_step: "sync_main_inv s0 s \<Longrightarrow> sync_main_inv s0 (sync_step H d s)"
  by (cases d) (simp_all add: sync_main_inv_main sync_main_inv_activate sync_main_inv_listen)

lemma sync_main_inv_exec: "sync_main_inv s0 s \<Longrightarrow> sync_main_inv s0 (sync_exec H ds s)"
  by (induction ds arbitrary: s) (simp_all add: sync_main_inv_step)

lemma sync_main_inv_start: "sync_main_inv (sync_start obj inb) (sync_start obj inb)"
  by (simp add: sync_main_inv_def sync_start_def)

lemma sync_main_inv_run: "sync_main_inv (sync_start obj inb) (sync_exec H sched (sync_start obj inb))"
  by (rule sync_main_inv_exec [OF sync_main_inv_start])

lemma no_send_in_rounds_done: "Send_model m c d \<notin> set (rounds_done s0 r)"
  by (auto simp: rounds_done_def round_events_def)

lemma no_send_in_round_prefix: "Send_model m c d \<notin> set (take k (round_events R r))"
  by (auto simp: round_events_def dest: in_set_takeD)

lemma in_exit_sendsD:
  "Send_model m' c d \<in> set (exit_sends m n) \<Longrightarrow>
     m' = m \<and> c = Exit \<and> 1 \<le> d \<and> d \<le> int n \<and> (\<exists>j. n = Suc j)"
  by (cases n) (auto simp: exit_sends_def)

text \<open>Where the main thread has sent an \<open>Exit\<close> package, all rounds are complete and the
  package carries the handler's model.\<close>

lemma sync_exit_sent:
  assumes inv: "sync_main_inv s0 s" and ex: "(Main_thread, Send_model m Exit d) \<in> set (sync_trace s)"
  shows "m = model (sync_handler s) \<and> 1 \<le> d \<and> d \<le> client_num_in_total (sync_handler s) \<and>
         (\<exists>i. sync_events_of Main_thread (sync_trace s) =
                rounds_done s0 (nat (global_round s0)) @ exit_sends m (Suc i))"
proof -
  from ex have mem: "Send_model m Exit d \<in> set (sync_events_of Main_thread (sync_trace s))"
    by (simp add: in_sync_events_of)
  show ?thesis
  proof (cases "sync_main s")
    case (SM_shutdown i n)
    with inv have me: "sync_events_of Main_thread (sync_trace s) =
        rounds_done s0 (nat (global_round s0)) @ exit_sends (model (sync_handler s)) i"
      and le: "i \<le> n" and n: "n = nat (client_num_in_total (sync_handler s))"
      by (simp_all add: sync_main_inv_def Let_def)
    from mem me le n show ?thesis
      by (auto simp: no_send_in_rounds_done dest!: in_exit_sendsD)
  next
    case SM_done
    with inv have me: "sync_events_of Main_thread (sync_trace s) =
        rounds_done s0 (nat (global_round s0)) @
        exit_sends (model (sync_handler s)) (nat (client_num_in_total (sync_handler s)))"
      by (simp add: sync_main_inv_def Let_def)
    from mem me show ?thesis
      by (auto simp: no_send_in_rounds_done dest!: in_exit_sendsD)
  qed (use inv mem in \<open>auto simp: sync_main_inv_def Let_def no_send_in_rounds_done
                       no_send_in_round_prefix\<close>)
qed

lemma sync_thread_sends_step: "sync_thread_sends s \<Longrightarrow> sync_thread_sends (sync_step H d s)"
  unfolding sync_thread_sends_def
  by (cases d)
     (auto simp: sync_main_step_def sync_activate_step_def sync_listen_step_def sync_emit_def Let_def
           split: sync_main_pc.splits sync_act_pc.splits sync_lis_pc.splits list.splits
                  prod.splits if_splits)

lemma sync_thread_sends_exec: "sync_thread_sends s \<Longrightarrow> sync_thread_sends (sync_exec H ds s)"
  by (induction ds arbitrary: s) (simp_all add: sync_thread_sends_step)

lemma sync_thread_sends_run: "sync_thread_sends (sync_exec H sched (sync_start obj inb))"
  by (rule sync_thread_sends_exec) (simp add: sync_thread_sends_def sync_start_def)

subsection \<open>The concrete run\<close>

lemma demo_sync_final_eq:
  "demo_sync_final =
     \<lparr>server_address = demo_address, dist_backend = ''gloo'',
      sync_handler = demo_handler\<lparr>model := [10, 20]\<rparr>,
      global_round = 1,
      sync_inbox = [(3, ParameterUpdate, 30), (4, ParameterUpdate, 40), (5, ParameterUpdate, 50),
                    (6, ParameterUpdate, 60)],
      sync_trace =
        [(Main_thread, Init_process_group ''gloo'' demo_address 0 7),
         (Main_thread, Log_round 1 1),
         (Main_thread, Start (Activate_thread 0)),
         (Main_thread, Start (Listen_thread 0)),
         (Activate_thread 0, Select_clients [1, 2]),
         (Activate_thread 0, Send_model [] ParameterUpdate 1),
         (Activate_thread 0, Send_model [] ParameterUpdate 2),
         (Activate_thread 0, Thread_exit),
         (Listen_thread 0, Train),
         (Listen_thread 0, Recv_model (1, ParameterUpdate, 10)),
         (Listen_thread 0, On_receive 1 ParameterUpdate 10),
         (Listen_thread 0, Recv_model (2, ParameterUpdate, 20)),
         (Listen_thread 0, On_receive 2 ParameterUpdate 20),
         (Listen_thread 0, Thread_exit),
         (Main_thread, Join (Activate_thread 0)),
         (Main_thread, Join (Listen_thread 0)),
         (Main_thread, Send_model [10, 20] Exit 1),
         (Main_thread, Send_model [10, 20] Exit 2),
         (Main_thread, Send_model [10, 20] Exit 3),
         (Main_thread, Send_model [10, 20] Exit 4),
         (Main_thread, Send_model [10, 20] Exit 5),
         (Main_thread, Send_model [10, 20] Exit 6)],
      sync_main = SM_done, sync_act = SA_done, sync_lis = SL_done\<rparr>"
  by (simp add: demo_sync_final_def demo_methods_def demo_sync_schedule_def sync_start_def
      demo_sync_top_def demo_inbox_def demo_handler_def ServerSyncTop_init_def sync_main_step_def
      sync_activate_step_def sync_listen_step_def sync_emit_def)

section \<open>Properties of the synchronous coordinator\<close>



text \<open>
  C10: every \<open>Exit\<close> package of the synchronous coordinator is sent by \<open>shutdown_clients\<close>
  through \<open>send_model\<close>, the call that also sends the \<open>ParameterUpdate\<close> packages, and carries
  the handler's current model; it goes to a worker rank \<open>1..client_num_in_total\<close>.
\<close>

theorem sync_exit_carries_model:
  assumes "s = sync_exec H sched (sync_start obj inb)"
    and "(t, Send_model m Exit d) \<in> set (sync_trace s)"
  shows "t = Main_thread \<and> m = model (sync_handler s) \<and>
         1 \<le> d \<and> d \<le> client_num_in_total (sync_handler s)"
proof -
  have "sync_thread_sends s"
    unfolding assms(1) by (rule sync_thread_sends_run)
  with assms(2) have t: "t = Main_thread"
    by (auto simp: sync_thread_sends_def)
  have "sync_main_inv (sync_start obj inb) s"
    unfolding assms(1) by (rule sync_main_inv_run)
  from sync_exit_sent [OF this] assms(2) t show ?thesis by blast
qed

theorem sync_exit_carries_model_witness:
  "(Main_thread, Send_model [10, 20] Exit 3) \<in> set (sync_trace demo_sync_final) \<and>
   [10, 20] = model (sync_handler demo_sync_final) \<and>
   (3::int) \<le> client_num_in_total (sync_handler demo_sync_final)"
proof -
  have ex: "(Main_thread, Send_model [10, 20] Exit 3) \<in> set (sync_trace demo_sync_final)"
    by (simp add: demo_sync_final_eq)
  from sync_exit_carries_model [OF demo_sync_final_def ex] ex show ?thesis by simp
qed

section \<open>Rounds of the synchronous coordinator do not overlap\<close>

lemma snoc_eq_split:
  "tr @ [a] = xs @ b # ys \<Longrightarrow>
     (ys = [] \<and> xs = tr \<and> b = a) \<or> (\<exists>ys'. ys = ys' @ [a] \<and> tr = xs @ b # ys')"
  by (cases ys rule: rev_cases) auto

lemma before_round_Suc: "before_round k t \<Longrightarrow> before_round (Suc k) t"
  by (cases t) auto

lemma round_closed_snoc: "round_closed r tr \<Longrightarrow> round_closed r (tr @ [x])"
  by (simp add: round_closed_def)

text \<open>Appending an effect of the main thread keeps the rounds separated; so does appending
  an effect of a thread of the current round \<open>k\<close>, when all earlier rounds are closed and no
  later round has begun.\<close>

lemma rounds_separated_main:
  assumes sep: "rounds_separated tr"
  shows "rounds_separated (tr @ [(Main_thread, e')])"
  unfolding rounds_separated_def
proof (intro allI impI)
  fix xs t e ys r
  assume eq: "tr @ [(Main_thread, e')] = xs @ (t, e) # ys"
    and t: "t = Activate_thread (Suc r) \<or> t = Listen_thread (Suc r)"
  from snoc_eq_split [OF eq] t obtain ys' where
    ys: "ys = ys' @ [(Main_thread, e')]" and tr: "tr = xs @ (t, e) # ys'"
    by auto
  from sep tr t have "round_closed r xs"
    "\<forall>e'. (Activate_thread r, e') \<notin> set ys' \<and> (Listen_thread r, e') \<notin> set ys'"
    unfolding rounds_separated_def by blast+
  with ys show "round_closed r xs \<and>
        (\<forall>e'. (Activate_thread r, e') \<notin> set ys \<and> (Listen_thread r, e') \<notin> set ys)"
    by auto
qed

lemma rounds_separated_thread:
  assumes sep: "rounds_separated tr"
    and cur: "t' = Activate_thread k \<or> t' = Listen_thread k"
    and closed: "\<forall>j<k. round_closed j tr"
    and seen: "\<forall>t e. (t, e) \<in> set tr \<longrightarrow> before_round (Suc k) t"
  shows "rounds_separated (tr @ [(t', e')])"
  unfolding rounds_separated_def
proof (intro allI impI)
  fix xs t e ys r
  assume eq: "tr @ [(t', e')] = xs @ (t, e) # ys"
    and t: "t = Activate_thread (Suc r) \<or> t = Listen_thread (Suc r)"
  from snoc_eq_split [OF eq]
  show "round_closed r xs \<and>
        (\<forall>e'. (Activate_thread r, e') \<notin> set ys \<and> (Listen_thread r, e') \<notin> set ys)"
  proof (elim disjE conjE exE)
    assume "ys = []" "xs = tr" "(t, e) = (t', e')"
    with t cur closed show ?thesis by auto
  next
    fix ys' assume ys: "ys = ys' @ [(t', e')]" and tr: "tr = xs @ (t, e) # ys'"
    from sep tr t have old: "round_closed r xs"
      "\<forall>e'. (Activate_thread r, e') \<notin> set ys' \<and> (Listen_thread r, e') \<notin> set ys'"
      unfolding rounds_separated_def by blast+
    from seen tr have "before_round (Suc k) t" by auto
    with t have "r < k" by auto
    with cur have "t' \<noteq> Activate_thread r" "t' \<noteq> Listen_thread r" by auto
    with old ys show ?thesis by auto
  qed
qed

lemma sync_order_inv_main: "sync_order_inv s \<Longrightarrow> sync_order_inv (sync_main_step s)"
  unfolding sync_order_inv_def sync_main_step_def sync_emit_def sync_quiet_def Let_def
  by (cases "sync_main s")
     (auto simp: rounds_separated_main round_closed_def less_Suc_eq
           intro: before_round_Suc)

lemma sync_order_inv_activate: "sync_order_inv s \<Longrightarrow> sync_order_inv (sync_activate_step H s)"
  unfolding sync_order_inv_def sync_activate_step_def sync_emit_def sync_quiet_def Let_def
  by (cases "sync_main s")
     (auto simp: round_closed_def intro!: rounds_separated_thread
           split: sync_act_pc.splits list.splits prod.splits)

lemma sync_order_inv_listen: "sync_order_inv s \<Longrightarrow> sync_order_inv (sync_listen_step H s)"
  unfolding sync_order_inv_def sync_listen_step_def sync_emit_def sync_quiet_def Let_def
  by (cases "sync_main s")
     (auto simp: round_closed_def intro!: rounds_separated_thread
           split: sync_lis_pc.splits list.splits prod.splits)

lemma sync_order_inv_step: "sync_order_inv s \<Longrightarrow> sync_order_inv (sync_step H d s)"
  by (cases d) (simp_all add: sync_order_inv_main sync_order_inv_activate sync_order_inv_listen)

lemma sync_order_inv_exec: "sync_order_inv s \<Longrightarrow> sync_order_inv (sync_exec H ds s)"
  by (induction ds arbitrary: s) (simp_all add: sync_order_inv_step)

lemma sync_order_inv_run: "sync_order_inv (sync_exec H sched (sync_start obj inb))"
  by (rule sync_order_inv_exec) (simp add: sync_order_inv_def sync_start_def rounds_separated_def)

subsection \<open>The concrete run of two rounds\<close>

lemma demo_two_rounds_trace:
  "sync_trace demo_two_rounds_final =
     demo_first_round @ (Activate_thread (Suc 0), Select_clients [5, 6]) # demo_second_round"
  by (simp add: demo_two_rounds_final_def demo_methods_def demo_two_rounds_schedule_def
      sync_start_def demo_sync_top_def demo_inbox_def demo_handler_def ServerSyncTop_init_def
      sync_main_step_def sync_activate_step_def sync_listen_step_def sync_emit_def
      demo_first_round_def demo_second_round_def)

text \<open>
  C3: in every synchronous round both duties are joined before the round counter advances, so
  nothing of round \<open>r + 1\<close> happens before round \<open>r\<close> has drained. Stated for every schedule:
  where a thread of round \<open>r + 1\<close> (its activation or its listening duty) does anything, both
  threads of round \<open>r\<close> have run to their end and have been joined before, and neither does
  anything afterwards.
\<close>

theorem sync_rounds_do_not_overlap:
  assumes "s = sync_exec H sched (sync_start obj inb)"
    and "sync_trace s = xs @ (t, e) # ys"
    and "t = Activate_thread (Suc r) \<or> t = Listen_thread (Suc r)"
  shows "(Activate_thread r, Thread_exit) \<in> set xs \<and> (Listen_thread r, Thread_exit) \<in> set xs \<and>
         (Main_thread, Join (Activate_thread r)) \<in> set xs \<and>
         (Main_thread, Join (Listen_thread r)) \<in> set xs \<and>
         (\<forall>e'. (Activate_thread r, e') \<notin> set ys \<and> (Listen_thread r, e') \<notin> set ys)"
proof -
  have "sync_order_inv s"
    unfolding assms(1) by (rule sync_order_inv_run)
  then have "rounds_separated (sync_trace s)"
    by (simp add: sync_order_inv_def)
  with assms(2,3) have "round_closed r xs \<and>
      (\<forall>e'. (Activate_thread r, e') \<notin> set ys \<and> (Listen_thread r, e') \<notin> set ys)"
    unfolding rounds_separated_def by blast
  then show ?thesis by (simp add: round_closed_def)
qed

theorem sync_rounds_do_not_overlap_witness:
  "sync_trace demo_two_rounds_final =
     demo_first_round @ (Activate_thread (Suc 0), Select_clients [5, 6]) # demo_second_round \<and>
   (Activate_thread 0, Thread_exit) \<in> set demo_first_round \<and>
   (Listen_thread 0, Thread_exit) \<in> set demo_first_round \<and>
   (Main_thread, Join (Listen_thread 0)) \<in> set demo_first_round \<and>
   (Listen_thread 0, Recv_model (1, ParameterUpdate, 10)) \<notin> set demo_second_round"
  using sync_rounds_do_not_overlap
          [OF demo_two_rounds_final_def demo_two_rounds_trace disjI1 [OF refl]]
        demo_two_rounds_trace
  by blast

section \<open>The asynchronous listening duty\<close>

lemma async_events_of_append [simp]:
  "async_events_of d (tr @ tr') = async_events_of d tr @ async_events_of d tr'"
  by (simp add: async_events_of_def)

lemma async_events_of_Cons [simp]:
  "async_events_of d ((d', e) # tr) = (if d' = d then [e] else []) @ async_events_of d tr"
  by (simp add: async_events_of_def)

lemma async_events_of_Nil [simp]: "async_events_of d [] = []"
  by (simp add: async_events_of_def)


lemma lis_iterations_0 [simp]: "lis_iterations inb 0 = []"
  by (simp add: lis_iterations_def)

lemma lis_iterations_Suc:
  "lis_iterations inb (Suc n) = lis_iterations inb n @ lis_iteration n (inb ! n)"
  by (simp add: lis_iterations_def)

lemma drop_eq_ConsD:
  "drop i xs = y # ys \<Longrightarrow> i < length xs \<and> y = xs ! i \<and> ys = drop (Suc i) xs"
proof -
  assume eq: "drop i xs = y # ys"
  then have len: "i < length xs"
    by (cases "i < length xs") auto
  from Cons_nth_drop_Suc [OF len] eq show ?thesis
    using len by simp
qed

lemma async_lis_inv_listen: "async_lis_inv s0 s \<Longrightarrow> async_lis_inv s0 (async_listen_step H s)"
  unfolding async_lis_inv_def async_listen_step_def async_emit_def Let_def
  by (cases "async_lis s")
     (auto simp: lis_iterations_Suc lis_iteration_def Cons_nth_drop_Suc
           split: list.splits prod.splits dest!: drop_eq_ConsD range_exhausted)

lemma async_lis_inv_activate:
  "async_lis_inv s0 s \<Longrightarrow> async_lis_inv s0 (async_activate_step H ser s)"
  unfolding async_lis_inv_def async_activate_step_def async_emit_def Let_def
  by (cases "async_act s") (auto split: list.splits prod.splits)

lemma async_lis_inv_main: "async_lis_inv s0 s \<Longrightarrow> async_lis_inv s0 (async_main_step ser s)"
  unfolding async_lis_inv_def async_main_step_def async_emit_def Let_def
  by (cases "async_main s") auto

lemma async_lis_inv_step: "async_lis_inv s0 s \<Longrightarrow> async_lis_inv s0 (async_step H ser d s)"
  by (cases d) (simp_all add: async_lis_inv_main async_lis_inv_activate async_lis_inv_listen)

lemma async_lis_inv_exec: "async_lis_inv s0 s \<Longrightarrow> async_lis_inv s0 (async_exec H ser ds s)"
  by (induction ds arbitrary: s) (simp_all add: async_lis_inv_step)

lemma async_lis_inv_run:
  "async_lis_inv (async_start obj inb) (async_exec H ser sched (async_start obj inb))"
  by (rule async_lis_inv_exec) (simp add: async_lis_inv_def async_start_def)

lemma recv_count_iterations: "length (filter is_recv (lis_iterations inb n)) = n"
  by (induction n) (simp_all add: lis_iterations_Suc lis_iteration_def)

lemma recv_count_listen_log:
  assumes "async_lis_inv s0 s"
  shows "length (filter is_recv (async_events_of Run_listen (async_trace s))) \<le> nat (total_update_time s0)"
    and "async_lis s = AL_done \<Longrightarrow>
         length (filter is_recv (async_events_of Run_listen (async_trace s))) = nat (total_update_time s0)"
  using assms unfolding async_lis_inv_def
  by (cases "async_lis s"; auto simp: recv_count_iterations lis_iteration_def)+

subsection \<open>The listening duty leaves its loop\<close>

lemma lis_rank_listen:
  assumes "async_lis_inv s0 s" and "async_lis s \<noteq> AL_idle"
    and "nat (total_update_time s0) \<le> length (async_inbox s0)"
  shows "lis_rank (nat (total_update_time s0)) (async_lis (async_listen_step H s)) =
         lis_rank (nat (total_update_time s0)) (async_lis s) - 1"
  using assms unfolding async_lis_inv_def async_listen_step_def async_emit_def
  by (cases "async_lis s") (auto split: list.splits prod.splits)

lemma lis_not_idle_listen:
  "async_lis s \<noteq> AL_idle \<Longrightarrow> async_lis (async_listen_step H s) \<noteq> AL_idle"
  unfolding async_listen_step_def async_emit_def
  by (cases "async_lis s") (auto split: list.splits prod.splits)

lemma lis_unchanged_activate: "async_lis (async_activate_step H ser s) = async_lis s"
  unfolding async_activate_step_def async_emit_def Let_def
  by (cases "async_act s") (auto split: list.splits prod.splits)

lemma lis_unchanged_main:
  "async_lis_inv s0 s \<Longrightarrow> async_lis s \<noteq> AL_idle \<Longrightarrow> async_lis (async_main_step ser s) = async_lis s"
  unfolding async_lis_inv_def async_main_step_def async_emit_def
  by (cases "async_main s") auto

lemma lis_rank_exec:
  assumes "async_lis_inv s0 s" and "async_lis s \<noteq> AL_idle"
    and "nat (total_update_time s0) \<le> length (async_inbox s0)"
  shows "async_lis (async_exec H ser ds s) \<noteq> AL_idle \<and>
         lis_rank (nat (total_update_time s0)) (async_lis (async_exec H ser ds s)) =
         lis_rank (nat (total_update_time s0)) (async_lis s) - count_list ds Run_listen"
  using assms
proof (induction ds arbitrary: s)
  case Nil
  then show ?case by simp
next
  case (Cons d ds)
  have inv': "async_lis_inv s0 (async_step H ser d s)"
    by (rule async_lis_inv_step [OF Cons.prems(1)])
  have live: "async_lis (async_step H ser d s) \<noteq> AL_idle"
    using Cons.prems(1,2)
    by (cases d) (simp_all add: lis_not_idle_listen lis_unchanged_activate lis_unchanged_main)
  have rank: "lis_rank (nat (total_update_time s0)) (async_lis (async_step H ser d s)) =
        lis_rank (nat (total_update_time s0)) (async_lis s) - (if d = Run_listen then 1 else 0)"
    using Cons.prems
    by (cases d) (simp_all add: lis_rank_listen lis_unchanged_activate lis_unchanged_main)
  from Cons.IH [OF inv' live Cons.prems(3)] rank show ?case
    by (cases d) simp_all
qed

lemma lis_rank_bound: "lis_rank n pc \<le> 4 * n + 1"
  by (cases pc) simp_all

lemma lis_rank_0_done:
  "async_lis_inv s0 s \<Longrightarrow> lis_rank (nat (total_update_time s0)) (async_lis s) = 0 \<Longrightarrow>
   async_lis s = AL_done"
  unfolding async_lis_inv_def by (cases "async_lis s") auto



subsection \<open>The concrete run of the listening duty\<close>

lemmas demo_async_defs =
  demo_methods_def demo_serialize_def demo_async_top_def demo_inbox_def demo_handler_def
  ServerAsyncTop_init_def async_start_def async_main_step_def async_activate_step_def
  async_listen_step_def async_emit_def Package_def append_tensor_list_def

lemma demo_async_started_lis: "async_lis demo_async_started = AL_recv 0"
  by (simp add: demo_async_started_def demo_async_defs)

lemma demo_async_listened_eq:
  "demo_async_listened =
     async_exec demo_methods demo_serialize demo_listen_schedule demo_async_started"
  by (simp add: demo_async_listened_def demo_async_started_def)



lemma demo_total: "total_update_time demo_async_top = 6"
  by (simp add: demo_async_top_def ServerAsyncTop_init_def demo_handler_def)

section \<open>Properties of the asynchronous listening duty\<close>

text \<open>
  C4: \<open>listen_clients\<close> of the asynchronous coordinator performs exactly \<open>total_update_time\<close>
  receive iterations, where the constructor sets \<open>total_update_time\<close> to
  \<open>global_activate_epoch\<close> times the handler's \<open>client_num_per_round\<close>. Stated for every
  schedule: the duty never receives more than \<open>total_update_time\<close> packages, it has received
  exactly that many when it has left its loop, and once it is started and that many packages
  arrive it has left its loop after \<open>4 * total_update_time + 1\<close> of its own steps, however the
  other duties are scheduled.
\<close>

theorem async_listen_receives_total:
  assumes "s = async_exec H ser pre (async_start obj inb)"
  shows "total_update_time
           (ServerAsyncTop_init server_handler address backend logger_path logger_name) =
         global_activate_epoch
           (ServerAsyncTop_init server_handler address backend logger_path logger_name) *
         client_num_per_round server_handler \<and>
         length (filter is_recv (async_events_of Run_listen (async_trace s))) \<le>
           nat (total_update_time obj) \<and>
         (async_lis s = AL_done \<longrightarrow>
            length (filter is_recv (async_events_of Run_listen (async_trace s))) =
              nat (total_update_time obj)) \<and>
         (async_lis s \<noteq> AL_idle \<and> nat (total_update_time obj) \<le> length inb \<and>
          4 * nat (total_update_time obj) + 1 \<le> count_list post Run_listen \<longrightarrow>
            async_lis (async_exec H ser post s) = AL_done)"
proof -
  let ?s0 = "async_start obj inb"
  have inv: "async_lis_inv ?s0 s"
    unfolding assms by (rule async_lis_inv_run)
  have T: "total_update_time ?s0 = total_update_time obj" and inb: "async_inbox ?s0 = inb"
    by (simp_all add: async_start_def)
  have leaves: "async_lis (async_exec H ser post s) = AL_done"
    if live: "async_lis s \<noteq> AL_idle" and len: "nat (total_update_time obj) \<le> length inb"
      and cnt: "4 * nat (total_update_time obj) + 1 \<le> count_list post Run_listen"
  proof -
    from len have len': "nat (total_update_time ?s0) \<le> length (async_inbox ?s0)"
      by (simp add: T inb)
    from lis_rank_exec [OF inv live len', of H ser post]
    have "lis_rank (nat (total_update_time ?s0)) (async_lis (async_exec H ser post s)) =
          lis_rank (nat (total_update_time ?s0)) (async_lis s) - count_list post Run_listen"
      by simp
    also have "\<dots> = 0"
      using lis_rank_bound [of "nat (total_update_time ?s0)" "async_lis s"] cnt
      by (simp add: T)
    finally show ?thesis
      using lis_rank_0_done [OF async_lis_inv_exec [OF inv]] by blast
  qed
  from recv_count_listen_log [OF inv] leaves show ?thesis
    by (simp add: T ServerAsyncTop_init_def Let_def)
qed

theorem async_listen_receives_total_witness:
  "async_lis demo_async_started \<noteq> AL_idle \<and>
   nat (total_update_time demo_async_top) \<le> length demo_inbox \<and>
   4 * nat (total_update_time demo_async_top) + 1 \<le> count_list demo_listen_schedule Run_listen \<and>
   async_lis demo_async_listened = AL_done \<and>
   length (filter is_recv (async_events_of Run_listen (async_trace demo_async_listened))) = 6"
proof -
  have hyp: "async_lis demo_async_started \<noteq> AL_idle"
    "nat (total_update_time demo_async_top) \<le> length demo_inbox"
    "4 * nat (total_update_time demo_async_top) + 1 \<le> count_list demo_listen_schedule Run_listen"
    by (simp_all add: demo_async_started_lis demo_total demo_inbox_def demo_listen_schedule_def)
  from async_listen_receives_total
         [OF demo_async_started_def, of demo_handler demo_address "''gloo''" "''server_top.txt''"
            "''ServerTop''" demo_listen_schedule] hyp
  have fin: "async_lis demo_async_listened = AL_done"
    by (simp add: demo_async_listened_eq)
  from async_listen_receives_total
         [OF demo_async_listened_def, of demo_handler demo_address "''gloo''" "''server_top.txt''"
            "''ServerTop''" "[]"] fin
  have "length (filter is_recv (async_events_of Run_listen (async_trace demo_async_listened))) =
        nat (total_update_time demo_async_top)"
    by blast
  with hyp fin show ?thesis by (simp add: demo_total)
qed



section \<open>The asynchronous main thread\<close>
















subsection \<open>The concrete run of the asynchronous shutdown\<close>





section \<open>Properties of the asynchronous main thread\<close>



section \<open>The gate between asynchronous epochs\<close>














subsection \<open>The concrete run with a late update\<close>


section \<open>Properties of the asynchronous activation duty\<close>




end
